theory Spec2Isabelle
  imports
    Main
    "HOL-Library.Multiset"
    "HOL-Library.Sublist"
    "HOL-Library.Char_ord"
    "HOL-Library.List_Lexorder"
begin

section \<open>The vault service of server.js\<close>

text \<open>
  The service keeps one collection of vault entries in a document store and a directory
  of backup snapshots on disk. Each route handler of server.js is embedded as a function
  from the request and the world (store, backups directory, clock, identifier supply) to
  the response and the new world. What the handler cannot decide by itself is supplied by
  an environment record: how far the clock advances before each \<^verbatim>\<open>Date.now()\<close>, and
  which store or filesystem call is rejected. The clock never runs backwards: every
  advance is a natural number of milliseconds. Requests are run one after the other;
  overlapping requests are not modelled. Text is ASCII.
\<close>

subsection \<open>Data\<close>

type_synonym objectid = nat
type_synonym time = nat

text \<open>A document of vaultSchema, with the \<^verbatim>\<open>_id\<close> the store adds.\<close>

record entry =
  entry_id :: objectid
  name :: string
  content :: string
  category :: string
  tags :: "string list"
  createdAt :: time
  updatedAt :: time

datatype operation = CREATE | UPDATE | DELETE

text \<open>The object that createBackup serialises into a backup file.\<close>

record snapshot =
  timestamp :: time
  operation :: operation
  trigger :: "(string option \<times> objectid) option"
  data :: "entry list"
  count_entries :: nat

text \<open>
  A backup file is named \<^verbatim>\<open>backup-<operation>-<timestamp>.json\<close>; the name is kept as
  the pair it is built from.
\<close>

type_synonym file_name = "operation \<times> time"

record world =
  store :: "entry list"
  backups_dir :: "(file_name \<rightharpoonup> snapshot) option"
  now :: time
  next_oid :: objectid

datatype err =
    ValidationError
  | CastError
  | StoreError
  | DuplicateKey
  | FilesystemError
  | RegExpSyntaxError

text \<open>
  The environment of one request. \<open>tick_a\<close>, \<open>tick_b\<close> and \<open>tick_c\<close> are the milliseconds
  that pass before the first, second and third \<^verbatim>\<open>Date.now()\<close> of the handler itself,
  \<open>backup_tick1\<close> and \<open>backup_tick2\<close> those before the two \<^verbatim>\<open>new Date()\<close> of createBackup.
  \<open>read_fault\<close> rejects the handler's query, \<open>write_fault\<close> its insert, update or delete,
  \<open>backup_find_fault\<close> the \<^verbatim>\<open>Vault.find({})\<close> of createBackup and \<open>backup_write_fault\<close>
  its \<^verbatim>\<open>fs.writeFile\<close>.
\<close>

record env =
  tick_a :: nat
  tick_b :: nat
  tick_c :: nat
  backup_tick1 :: nat
  backup_tick2 :: nat
  read_fault :: bool
  write_fault :: bool
  backup_find_fault :: bool
  backup_write_fault :: bool

text \<open>
  The JSON body of POST and PUT. The handlers destructure \<open>name\<close>, \<open>content\<close>,
  \<open>category\<close> and \<open>tags\<close>; every other property of the body is in \<open>body_other\<close>.
  \<open>None\<close> is a property that is absent.
\<close>

record body =
  body_name :: "string option"
  body_content :: "string option"
  body_category :: "string option"
  body_tags :: "string list option"
  body_other :: "(string \<times> string) list"

text \<open>\<^verbatim>\<open>req.params.id\<close>, as the cast to an ObjectId sees it.\<close>

datatype id_param = Malformed | ObjectId objectid

datatype payload =
    ErrorBody string "err option"
  | EntryBody "string option" entry
  | ListBody nat "entry list"
  | SearchBody string nat "entry list"
  | SortBody string string nat "entry list"

type_synonym response = "nat \<times> payload"

subsection \<open>Primitives\<close>

definition Date_now :: "nat \<Rightarrow> world \<Rightarrow> time \<times> world" where
  "Date_now d w = (now w + d, w\<lparr>now := now w + d\<rparr>)"

definition is_space :: "char \<Rightarrow> bool" where
  "is_space c = (c \<in> set [CHR 0x09, CHR 0x0A, CHR 0x0B, CHR 0x0C, CHR 0x0D, CHR 0x20])"

definition trim :: "string \<Rightarrow> string" where
  "trim s = rev (dropWhile is_space (rev (dropWhile is_space s)))"

definition find_all :: "bool \<Rightarrow> world \<Rightarrow> err + entry list" where
  "find_all fault w = (if fault then Inl StoreError else Inr (store w))"

definition findById :: "bool \<Rightarrow> id_param \<Rightarrow> world \<Rightarrow> err + entry option" where
  "findById fault idp w =
     (case idp of
        Malformed \<Rightarrow> Inl CastError
      | ObjectId i \<Rightarrow>
          if fault then Inl StoreError
          else Inr (find (\<lambda>e. entry_id e = i) (store w)))"

text \<open>The store deletes and updates one document: the first that has the identifier.\<close>

fun delete_one :: "objectid \<Rightarrow> entry list \<Rightarrow> entry list" where
  "delete_one i [] = []"
| "delete_one i (e # es) = (if entry_id e = i then es else e # delete_one i es)"

fun update_one :: "objectid \<Rightarrow> (entry \<Rightarrow> entry) \<Rightarrow> entry list \<Rightarrow> entry list" where
  "update_one i f [] = []"
| "update_one i f (e # es) = (if entry_id e = i then f e # es else e # update_one i f es)"

text \<open>
  \<^verbatim>\<open>fs.writeFile\<close> into the backups directory: it fails when the directory is absent,
  and replaces a file of the same name.
\<close>

definition writeFile :: "bool \<Rightarrow> file_name \<Rightarrow> snapshot \<Rightarrow> world \<Rightarrow> err + world" where
  "writeFile fault fn snap w =
     (if fault then Inl FilesystemError
      else case backups_dir w of
             None \<Rightarrow> Inl FilesystemError
           | Some d \<Rightarrow> Inr (w\<lparr>backups_dir := Some (d(fn \<mapsto> snap))\<rparr>))"

subsection \<open>Sorting, as the store does for \<^verbatim>\<open>.sort({field: 1 | -1})\<close>\<close>

primrec insert_by :: "('a \<Rightarrow> 'a \<Rightarrow> bool) \<Rightarrow> 'a \<Rightarrow> 'a list \<Rightarrow> 'a list" where
  "insert_by le x [] = [x]"
| "insert_by le x (y # ys) = (if le x y then x # y # ys else y # insert_by le x ys)"

definition sort_by :: "('a \<Rightarrow> 'a \<Rightarrow> bool) \<Rightarrow> 'a list \<Rightarrow> 'a list" where
  "sort_by le xs = foldr (insert_by le) xs []"

text \<open>
  \<open>sortBy\<close> is the field name and \<open>sortOrder\<close> is 1 or -1, as in the source. Strings
  compare byte by byte, a proper prefix first.
\<close>

definition entry_le :: "string \<Rightarrow> int \<Rightarrow> entry \<Rightarrow> entry \<Rightarrow> bool" where
  "entry_le sortBy sortOrder a b =
     (if sortBy = ''name''
      then (if sortOrder = 1 then name a \<le> name b else name b \<le> name a)
      else (if sortOrder = 1 then createdAt a \<le> createdAt b else createdAt b \<le> createdAt a))"

definition sort_docs :: "string \<Rightarrow> int \<Rightarrow> entry list \<Rightarrow> entry list" where
  "sort_docs sortBy sortOrder es = sort_by (entry_le sortBy sortOrder) es"

subsection \<open>ensureBackupsDir, startServer and createBackup\<close>

text \<open>
  \<open>ensureBackupsDir\<close> catches the error of \<^verbatim>\<open>fs.mkdir\<close> and logs it: it never throws.
  \<open>mkdir_fault\<close> says that mkdir is rejected.
\<close>

definition ensureBackupsDir :: "bool \<Rightarrow> world \<Rightarrow> (err + unit) \<times> world" where
  "ensureBackupsDir mkdir_fault w =
     (if mkdir_fault then (Inr (), w)
      else (Inr (),
            w\<lparr>backups_dir := Some (case backups_dir w of None \<Rightarrow> Map.empty | Some d \<Rightarrow> d)\<rparr>))"

datatype process = Listening | Exited nat

text \<open>\<open>listen_throws\<close> says that \<^verbatim>\<open>app.listen\<close> throws inside the try block.\<close>

definition startServer :: "bool \<Rightarrow> bool \<Rightarrow> world \<Rightarrow> process \<times> world" where
  "startServer mkdir_fault listen_throws w =
     (case ensureBackupsDir mkdir_fault w of
        (Inl e, w1) \<Rightarrow> (Exited 1, w1)
      | (Inr u, w1) \<Rightarrow> if listen_throws then (Exited 1, w1) else (Listening, w1))"

definition createBackup ::
  "env \<Rightarrow> operation \<Rightarrow> (string option \<times> objectid) option \<Rightarrow> world
     \<Rightarrow> (err + file_name) \<times> world" where
  "createBackup env op trig w =
     (case Date_now (backup_tick1 env) w of
        (ts, w1) \<Rightarrow>
          (case find_all (backup_find_fault env) w1 of
             Inl e \<Rightarrow> (Inl e, w1)
           | Inr allData \<Rightarrow>
               (case Date_now (backup_tick2 env) w1 of
                  (ts2, w2) \<Rightarrow>
                    (case writeFile (backup_write_fault env) (op, ts)
                            \<lparr>timestamp = ts2, operation = op, trigger = trig,
                             data = allData, count_entries = length allData\<rparr> w2 of
                       Inl e \<Rightarrow> (Inl e, w2)
                     | Inr w3 \<Rightarrow> (Inr (op, ts), w3)))))"

subsection \<open>The document operations of the model class\<close>

text \<open>
  \<^verbatim>\<open>new Vault({...})\<close>: the identifier is fresh, \<open>name\<close> is trimmed, and the two
  timestamp defaults each read the clock.
\<close>

definition new_Vault ::
  "env \<Rightarrow> string \<Rightarrow> string \<Rightarrow> string \<Rightarrow> string list \<Rightarrow> world \<Rightarrow> entry \<times> world" where
  "new_Vault env n c cat ts w =
     (case Date_now (tick_a env) w of
        (t1, w1) \<Rightarrow>
          (case Date_now (tick_b env) w1 of
             (t2, w2) \<Rightarrow>
               (\<lparr>entry_id = next_oid w, name = trim n, content = c, category = cat,
                 tags = ts, createdAt = t1, updatedAt = t2\<rparr>,
                w2\<lparr>next_oid := Suc (next_oid w)\<rparr>)))"

text \<open>
  \<^verbatim>\<open>doc.save()\<close>: the required fields are validated, the pre-save hook overwrites
  \<open>updatedAt\<close> with the clock, and the document is inserted. The store refuses an
  identifier it already holds.
\<close>

definition save :: "env \<Rightarrow> entry \<Rightarrow> world \<Rightarrow> (err + entry) \<times> world" where
  "save env doc w =
     (if name doc = [] \<or> content doc = [] then (Inl ValidationError, w)
      else case Date_now (tick_c env) w of
        (t, w1) \<Rightarrow>
          if write_fault env then (Inl StoreError, w1)
          else if list_ex (\<lambda>e. entry_id e = entry_id doc) (store w1)
          then (Inl DuplicateKey, w1)
          else (Inr (doc\<lparr>updatedAt := t\<rparr>),
                w1\<lparr>store := store w1 @ [doc\<lparr>updatedAt := t\<rparr>]\<rparr>))"

text \<open>
  The update document \<^verbatim>\<open>{name, content, category, tags, updatedAt}\<close> applied to an
  entry: a property that is undefined is left out of the update, \<open>name\<close> is trimmed.
\<close>

definition apply_update :: "body \<Rightarrow> time \<Rightarrow> entry \<Rightarrow> entry" where
  "apply_update b t e =
     e\<lparr>name := (case body_name b of None \<Rightarrow> name e | Some n \<Rightarrow> trim n),
       content := (case body_content b of None \<Rightarrow> content e | Some c \<Rightarrow> c),
       category := (case body_category b of None \<Rightarrow> category e | Some c \<Rightarrow> c),
       tags := (case body_tags b of None \<Rightarrow> tags e | Some ts \<Rightarrow> ts),
       updatedAt := t\<rparr>"

text \<open>The update validators (\<^verbatim>\<open>runValidators: true\<close>) check the required fields that are set.\<close>

definition update_valid :: "body \<Rightarrow> bool" where
  "update_valid b =
     ((case body_name b of None \<Rightarrow> True | Some n \<Rightarrow> trim n \<noteq> [])
      \<and> (case body_content b of None \<Rightarrow> True | Some c \<Rightarrow> c \<noteq> []))"

definition findByIdAndUpdate ::
  "env \<Rightarrow> id_param \<Rightarrow> body \<Rightarrow> time \<Rightarrow> world \<Rightarrow> (err + entry option) \<times> world" where
  "findByIdAndUpdate env idp b t w =
     (case idp of
        Malformed \<Rightarrow> (Inl CastError, w)
      | ObjectId i \<Rightarrow>
          if \<not> update_valid b then (Inl ValidationError, w)
          else if write_fault env then (Inl StoreError, w)
          else (case find (\<lambda>e. entry_id e = i) (store w) of
                  None \<Rightarrow> (Inr None, w)
                | Some e \<Rightarrow>
                    (Inr (Some (apply_update b t e)),
                     w\<lparr>store := update_one i (apply_update b t) (store w)\<rparr>)))"

definition findByIdAndDelete :: "env \<Rightarrow> id_param \<Rightarrow> world \<Rightarrow> (err + entry option) \<times> world" where
  "findByIdAndDelete env idp w =
     (case idp of
        Malformed \<Rightarrow> (Inl CastError, w)
      | ObjectId i \<Rightarrow>
          if write_fault env then (Inl StoreError, w)
          else (Inr (find (\<lambda>e. entry_id e = i) (store w)),
                w\<lparr>store := delete_one i (store w)\<rparr>))"

subsection \<open>Regular expressions\<close>

text \<open>
  \<^verbatim>\<open>new RegExp(q, 'i')\<close> compiles the query as a pattern, and the store tests the
  fields against it without regard to case. The fragment that is modelled here is the
  patterns made of ordinary characters and the alternation bar: such a pattern matches a
  text when one of its alternatives occurs in the text. A pattern that uses another
  syntax character is handed to \<open>engine\<close>, the rest of the regular-expression
  implementation, which compiles it or rejects it with a syntax error.
\<close>

definition syntax_character :: "char \<Rightarrow> bool" where
  "syntax_character c =
     (c \<in> set [CHR ''^'', CHR ''$'', CHR 0x5C, CHR ''.'', CHR ''*'', CHR ''+'', CHR ''?'',
               CHR ''('', CHR '')'', CHR ''['', CHR '']'', CHR ''{'', CHR ''}'', CHR ''|''])"

definition to_lower :: "char \<Rightarrow> char" where
  "to_lower c =
     (case map_of (zip ''ABCDEFGHIJKLMNOPQRSTUVWXYZ'' ''abcdefghijklmnopqrstuvwxyz'') c of
        None \<Rightarrow> c
      | Some l \<Rightarrow> l)"

fun starts_with_i :: "string \<Rightarrow> string \<Rightarrow> bool" where
  "starts_with_i [] s = True"
| "starts_with_i (p # ps) [] = False"
| "starts_with_i (p # ps) (c # cs) = (to_lower p = to_lower c \<and> starts_with_i ps cs)"

fun occurs_i :: "string \<Rightarrow> string \<Rightarrow> bool" where
  "occurs_i p [] = starts_with_i p []"
| "occurs_i p (c # cs) = (starts_with_i p (c # cs) \<or> occurs_i p cs)"

fun alternatives :: "string \<Rightarrow> string list" where
  "alternatives [] = [[]]"
| "alternatives (c # cs) =
     (if c = CHR ''|'' then [] # alternatives cs
      else (case alternatives cs of
              [] \<Rightarrow> [[c]]
            | a # as \<Rightarrow> (c # a) # as))"

type_synonym regexp = "string \<Rightarrow> bool"

definition RegExp_i :: "(string \<Rightarrow> err + regexp) \<Rightarrow> string \<Rightarrow> err + regexp" where
  "RegExp_i engine pattern =
     (if list_all (\<lambda>c. c = CHR ''|'' \<or> \<not> syntax_character c) pattern
      then Inr (\<lambda>s. list_ex (\<lambda>a. occurs_i a s) (alternatives pattern))
      else engine pattern)"

subsection \<open>The route handlers\<close>

text \<open>A string of the request is truthy when it is present and not empty.\<close>

definition truthy :: "string option \<Rightarrow> bool" where
  "truthy v = (case v of None \<Rightarrow> False | Some s \<Rightarrow> s \<noteq> [])"

definition search_handler ::
  "(string \<Rightarrow> err + regexp) \<Rightarrow> env \<Rightarrow> string option \<Rightarrow> world \<Rightarrow> response" where
  \<open>search_handler engine env q w =
     (case q of
        None \<Rightarrow> (400, ErrorBody ''Search query parameter "q" is required'' None)
      | Some qs \<Rightarrow>
          if qs = [] then (400, ErrorBody ''Search query parameter "q" is required'' None)
          else (case RegExp_i engine qs of
                  Inl e \<Rightarrow> (500, ErrorBody ''Search failed'' (Some e))
                | Inr regex \<Rightarrow>
                    (case find_all (read_fault env) w of
                       Inl e \<Rightarrow> (500, ErrorBody ''Search failed'' (Some e))
                     | Inr es \<Rightarrow>
                         (let results =
                                filter (\<lambda>e. regex (name e) \<or> regex (content e)
                                         \<or> regex (category e) \<or> list_ex regex (tags e)) es
                          in (200, SearchBody qs (length results) results)))))\<close>

definition sort_handler :: "env \<Rightarrow> string option \<Rightarrow> string option \<Rightarrow> world \<Rightarrow> response" where
  \<open>sort_handler env by order w =
     (case (if truthy by
            then (if by = Some ''name'' then Inr ''name''
                  else if by = Some ''date'' then Inr ''createdAt''
                  else Inl (400, ErrorBody ''Invalid sort field. Use "name" or "date"'' None))
            else Inr ''createdAt'') of
        Inl r \<Rightarrow> r
      | Inr sortBy \<Rightarrow>
          (case (if truthy order
                 then (if order = Some ''asc'' then Inr 1
                       else if order = Some ''desc'' then Inr (- 1)
                       else Inl (400, ErrorBody ''Invalid sort order. Use "asc" or "desc"'' None))
                 else Inr (- 1)) of
             Inl r \<Rightarrow> r
           | Inr sortOrder \<Rightarrow>
               (case find_all (read_fault env) w of
                  Inl e \<Rightarrow> (500, ErrorBody ''Sort failed'' (Some e))
                | Inr es \<Rightarrow>
                    (let entries = sort_docs sortBy sortOrder es
                     in (200, SortBody sortBy
                                (if sortOrder = 1 then ''ascending'' else ''descending'')
                                (length entries) entries)))))\<close>

definition create_handler :: "env \<Rightarrow> body \<Rightarrow> world \<Rightarrow> response \<times> world" where
  "create_handler env b w =
     (if \<not> truthy (body_name b) \<or> \<not> truthy (body_content b)
      then ((400, ErrorBody ''Name and content are required'' None), w)
      else
        (case (body_name b, body_content b) of
           (Some n, Some c) \<Rightarrow>
             (case new_Vault env n c
                     (if truthy (body_category b)
                      then (case body_category b of Some cat \<Rightarrow> cat | None \<Rightarrow> ''general'')
                      else ''general'')
                     (case body_tags b of Some ts \<Rightarrow> ts | None \<Rightarrow> []) w of
                (newEntry, w1) \<Rightarrow>
                  (case save env newEntry w1 of
                     (Inl e, w2) \<Rightarrow>
                       ((500, ErrorBody ''Failed to create vault entry'' (Some e)), w2)
                   | (Inr saved, w2) \<Rightarrow>
                       (case createBackup env CREATE (Some (Some n, entry_id saved)) w2 of
                          (Inl e, w3) \<Rightarrow>
                            ((500, ErrorBody ''Failed to create vault entry'' (Some e)), w3)
                        | (Inr fn, w3) \<Rightarrow>
                            ((201, EntryBody (Some ''Vault entry created successfully'') saved),
                             w3))))
         | _ \<Rightarrow> ((400, ErrorBody ''Name and content are required'' None), w)))"

definition list_handler :: "env \<Rightarrow> world \<Rightarrow> response" where
  "list_handler env w =
     (case find_all (read_fault env) w of
        Inl e \<Rightarrow> (500, ErrorBody ''Failed to fetch vault entries'' (Some e))
      | Inr es \<Rightarrow>
          (let entries = sort_docs ''createdAt'' (- 1) es
           in (200, ListBody (length entries) entries)))"

definition get_handler :: "env \<Rightarrow> id_param \<Rightarrow> world \<Rightarrow> response" where
  "get_handler env idp w =
     (case findById (read_fault env) idp w of
        Inl e \<Rightarrow> (500, ErrorBody ''Failed to fetch vault entry'' (Some e))
      | Inr None \<Rightarrow> (404, ErrorBody ''Vault entry not found'' None)
      | Inr (Some entry) \<Rightarrow> (200, EntryBody None entry))"

definition update_handler :: "env \<Rightarrow> id_param \<Rightarrow> body \<Rightarrow> world \<Rightarrow> response \<times> world" where
  "update_handler env idp b w =
     (case Date_now (tick_a env) w of
        (t, w1) \<Rightarrow>
          (case findByIdAndUpdate env idp b t w1 of
             (Inl e, w2) \<Rightarrow> ((500, ErrorBody ''Failed to update vault entry'' (Some e)), w2)
           | (Inr None, w2) \<Rightarrow> ((404, ErrorBody ''Vault entry not found'' None), w2)
           | (Inr (Some entry), w2) \<Rightarrow>
               (case createBackup env UPDATE (Some (body_name b, entry_id entry)) w2 of
                  (Inl e, w3) \<Rightarrow>
                    ((500, ErrorBody ''Failed to update vault entry'' (Some e)), w3)
                | (Inr fn, w3) \<Rightarrow>
                    ((200, EntryBody (Some ''Vault entry updated successfully'') entry), w3))))"

definition delete_handler :: "env \<Rightarrow> id_param \<Rightarrow> world \<Rightarrow> response \<times> world" where
  "delete_handler env idp w =
     (case findById (read_fault env) idp w of
        Inl e \<Rightarrow> ((500, ErrorBody ''Failed to delete vault entry'' (Some e)), w)
      | Inr None \<Rightarrow> ((404, ErrorBody ''Vault entry not found'' None), w)
      | Inr (Some entry) \<Rightarrow>
          (case createBackup env DELETE (Some (Some (name entry), entry_id entry)) w of
             (Inl e, w1) \<Rightarrow> ((500, ErrorBody ''Failed to delete vault entry'' (Some e)), w1)
           | (Inr fn, w1) \<Rightarrow>
               (case findByIdAndDelete env idp w1 of
                  (Inl e, w2) \<Rightarrow>
                    ((500, ErrorBody ''Failed to delete vault entry'' (Some e)), w2)
                | (Inr d, w2) \<Rightarrow>
                    ((200, EntryBody (Some ''Vault entry deleted successfully'') entry), w2))))"

subsection \<open>Sequences of requests\<close>

datatype request =
    Create body
  | Update id_param body
  | Delete id_param

definition handle :: "env \<Rightarrow> request \<Rightarrow> world \<Rightarrow> response \<times> world" where
  "handle env r w =
     (case r of
        Create b \<Rightarrow> create_handler env b w
      | Update idp b \<Rightarrow> update_handler env idp b w
      | Delete idp \<Rightarrow> delete_handler env idp w)"

fun run :: "(env \<times> request) list \<Rightarrow> world \<Rightarrow> world" where
  "run [] w = w"
| "run ((env, r) # rs) w = run rs (snd (handle env r w))"

text \<open>The world in which the server starts: nothing stored, no backups directory yet.\<close>

definition initial :: world where
  "initial = \<lparr>store = [], backups_dir = None, now = 0, next_oid = 0\<rparr>"

subsection \<open>Well-formed worlds and sample values\<close>

text \<open>
  An entry is valid at time \<open>t\<close> when its required fields are not empty and its
  timestamps are in order and not in the future.
\<close>

definition valid_entry :: "time \<Rightarrow> entry \<Rightarrow> bool" where
  "valid_entry t e =
     (name e \<noteq> [] \<and> content e \<noteq> [] \<and> createdAt e \<le> updatedAt e \<and> updatedAt e \<le> t)"

definition valid_world :: "world \<Rightarrow> bool" where
  "valid_world w = list_all (valid_entry (now w)) (store w)"

text \<open>An environment in which nothing fails and the clock stands still.\<close>

definition calm :: env where
  "calm = \<lparr>tick_a = 0, tick_b = 0, tick_c = 0, backup_tick1 = 0, backup_tick2 = 0,
           read_fault = False, write_fault = False, backup_find_fault = False,
           backup_write_fault = False\<rparr>"

definition sample_entry :: entry where
  "sample_entry = \<lparr>entry_id = 0, name = ''A'', content = ''x'', category = ''general'',
                    tags = [''Foo''], createdAt = 5, updatedAt = 6\<rparr>"

definition sample_world :: world where
  "sample_world = \<lparr>store = [sample_entry], backups_dir = Some Map.empty, now = 10,
                    next_oid = 1\<rparr>"

definition sample_body :: body where
  "sample_body = \<lparr>body_name = Some ''A'', body_content = Some ''x'', body_category = None,
                   body_tags = None, body_other = []\<rparr>"

definition sample_pair :: world where
  "sample_pair =
     \<lparr>store = [\<lparr>entry_id = 0, name = ''b'', content = ''x'', category = ''general'',
                tags = [], createdAt = 1, updatedAt = 1\<rparr>,
               \<lparr>entry_id = 1, name = ''a'', content = ''y'', category = ''work'',
                tags = [], createdAt = 2, updatedAt = 2\<rparr>],
      backups_dir = Some Map.empty, now = 3, next_oid = 2\<rparr>"

section \<open>Facts about the primitives\<close>

lemma createBackup_store: "createBackup env op trig w = (r, w1) \<Longrightarrow> store w1 = store w"
  by (auto simp: createBackup_def Date_now_def find_all_def writeFile_def
           split: if_splits option.splits sum.splits)

lemma createBackup_now: "createBackup env op trig w = (r, w1) \<Longrightarrow> now w \<le> now w1"
  by (auto simp: createBackup_def Date_now_def find_all_def writeFile_def
           split: if_splits option.splits sum.splits)

lemma createBackup_failed:
  "createBackup env op trig w = (Inl x, w1) \<Longrightarrow> backups_dir w1 = backups_dir w"
  by (auto simp: createBackup_def Date_now_def find_all_def writeFile_def
           split: if_splits option.splits sum.splits)

lemma createBackup_written:
  assumes "createBackup env op trig w = (Inr fn, w1)"
  shows "\<exists>d snap. backups_dir w1 = Some d \<and> d fn = Some snap \<and> fst fn = op
           \<and> operation snap = op \<and> trigger snap = trig \<and> data snap = store w
           \<and> count_entries snap = length (store w)"
  using assms
  by (auto simp: createBackup_def Date_now_def find_all_def writeFile_def
           split: if_splits option.splits sum.splits)

lemma createBackup_fails_iff:
  "(\<exists>x. fst (createBackup env op trig w) = Inl x)
     \<longleftrightarrow> backup_find_fault env \<or> backup_write_fault env \<or> backups_dir w = None"
  by (auto simp: createBackup_def Date_now_def find_all_def writeFile_def
           split: if_splits option.splits sum.splits)

lemma find_Some_mem: "find P xs = Some x \<Longrightarrow> x \<in> set xs \<and> P x"
  by (induction xs) (auto split: if_splits)

lemma findById_Some:
  "findById f idp w = Inr (Some e) \<Longrightarrow> idp = ObjectId (entry_id e) \<and> e \<in> set (store w)"
  by (auto simp: findById_def split: id_param.splits if_splits dest: find_Some_mem)

lemma new_Vault_result:
  assumes "new_Vault env n c cat ts w = (doc, w1)"
  shows "store w1 = store w" and "now w1 = now w + tick_a env + tick_b env"
    and "createdAt doc = now w + tick_a env" and "name doc = trim n" and "content doc = c"
    and "entry_id doc = next_oid w"
  using assms by (auto simp: new_Vault_def Date_now_def)

lemma save_result:
  assumes "save env doc w1 = (r, w2)"
  shows "(store w2 = store w1 \<and> now w1 \<le> now w2 \<and> (\<exists>x. r = Inl x))
       \<or> (store w2 = store w1 @ [doc\<lparr>updatedAt := now w2\<rparr>] \<and> now w2 = now w1 + tick_c env
          \<and> name doc \<noteq> [] \<and> content doc \<noteq> [] \<and> r = Inr (doc\<lparr>updatedAt := now w2\<rparr>)
          \<and> \<not> write_fault env \<and> \<not> list_ex (\<lambda>e. entry_id e = entry_id doc) (store w1))"
  using assms by (auto simp: save_def Date_now_def split: if_splits)

lemma createBackup_without_dir:
  "backups_dir w = None \<Longrightarrow>
     \<exists>x w1. createBackup env op trig w = (Inl x, w1) \<and> backups_dir w1 = None
            \<and> store w1 = store w"
  by (auto simp: createBackup_def Date_now_def find_all_def writeFile_def)

lemma find_append_last:
  "\<not> list_ex P xs \<Longrightarrow> P x \<Longrightarrow> find P (xs @ [x]) = Some x"
  by (induction xs) auto

lemma find_update_one:
  assumes "\<And>x. entry_id (f x) = entry_id x"
  shows "find (\<lambda>x. entry_id x = i) (update_one i f es)
           = map_option f (find (\<lambda>x. entry_id x = i) es)"
  using assms by (induction es) auto

lemma apply_update_keeps:
  "entry_id (apply_update b t e) = entry_id e" "createdAt (apply_update b t e) = createdAt e"
  "updatedAt (apply_update b t e) = t"
  by (simp_all add: apply_update_def)

section \<open>Facts about sorting\<close>

lemma mset_insert_by: "mset (insert_by le x xs) = add_mset x (mset xs)"
  by (induction xs) auto

lemma mset_sort_by: "mset (sort_by le xs) = mset xs"
  by (induction xs) (auto simp: sort_by_def mset_insert_by)

lemma set_insert_by: "set (insert_by le x xs) = insert x (set xs)"
  by (induction xs) auto

lemma sorted_insert_by:
  assumes total: "\<And>a b. le a b \<or> le b a" and trans: "\<And>a b c. le a b \<Longrightarrow> le b c \<Longrightarrow> le a c"
  shows "sorted_wrt le xs \<Longrightarrow> sorted_wrt le (insert_by le x xs)"
proof (induction xs)
  case Nil
  then show ?case by simp
next
  case (Cons y ys)
  show ?case
  proof (cases "le x y")
    case True
    with Cons.prems trans show ?thesis by auto
  next
    case False
    with total have "le y x" by blast
    with Cons False show ?thesis by (auto simp: set_insert_by)
  qed
qed

lemma sorted_sort_by:
  assumes "\<And>a b. le a b \<or> le b a" and "\<And>a b c. le a b \<Longrightarrow> le b c \<Longrightarrow> le a c"
  shows "sorted_wrt le (sort_by le xs)"
proof (induction xs)
  case Nil
  show ?case by (simp add: sort_by_def)
next
  case (Cons x xs)
  have "sorted_wrt le (insert_by le x (sort_by le xs))"
    by (rule sorted_insert_by [OF assms(1) assms(2) Cons.IH])
  then show ?case by (simp add: sort_by_def)
qed

lemma sorted_sort_docs: "sorted_wrt (entry_le f d) (sort_docs f d es)"
  unfolding sort_docs_def
  by (rule sorted_sort_by) (auto simp: entry_le_def)

lemma mset_sort_docs: "mset (sort_docs f d es) = mset es"
  by (simp add: sort_docs_def mset_sort_by)

lemma set_sort_docs: "set (sort_docs f d es) = set es"
  unfolding sort_docs_def by (metis mset_sort_by set_mset_mset)

lemma length_sort_docs: "length (sort_docs f d es) = length es"
  unfolding sort_docs_def by (metis mset_sort_by size_mset)

section \<open>Facts about patterns\<close>

lemma starts_with_i_Nil [simp]: "starts_with_i p [] \<longleftrightarrow> p = []"
  by (cases p) simp_all

lemma starts_with_i_prefix:
  "starts_with_i p s \<longleftrightarrow> prefix (map to_lower p) (map to_lower s)"
  by (induction p s rule: starts_with_i.induct) simp_all

lemma occurs_i_sublist: "occurs_i p s \<longleftrightarrow> sublist (map to_lower p) (map to_lower s)"
  by (induction s) (simp_all add: starts_with_i_prefix sublist_Cons_right)

lemma alternatives_plain: "CHR ''|'' \<notin> set q \<Longrightarrow> alternatives q = [q]"
  by (induction q) auto

lemma bar_is_syntax: "syntax_character (CHR ''|'')"
  by (simp add: syntax_character_def)

lemma RegExp_i_plain:
  assumes "\<forall>c\<in>set q. \<not> syntax_character c"
  shows "RegExp_i engine q = Inr (\<lambda>s. sublist (map to_lower q) (map to_lower s))"
proof -
  from assms bar_is_syntax have "CHR ''|'' \<notin> set q"
    by blast
  then have "alternatives q = [q]"
    by (rule alternatives_plain)
  moreover from assms have "list_all (\<lambda>c. c = CHR ''|'' \<or> \<not> syntax_character c) q"
    by (simp add: list_all_iff)
  ultimately show ?thesis
    by (simp add: RegExp_i_def occurs_i_sublist)
qed

section \<open>The invariant of the store\<close>

lemma valid_entry_mono: "valid_entry t e \<Longrightarrow> t \<le> t' \<Longrightarrow> valid_entry t' e"
  by (simp add: valid_entry_def)

lemma list_all_valid_later:
  "list_all (valid_entry t) es \<Longrightarrow> t \<le> t' \<Longrightarrow> list_all (valid_entry t') es"
  by (auto simp: list_all_iff intro: valid_entry_mono)

lemma valid_world_later:
  "valid_world w \<Longrightarrow> store w1 = store w \<Longrightarrow> now w \<le> now w1 \<Longrightarrow> valid_world w1"
  by (auto simp: valid_world_def list_all_iff intro: valid_entry_mono)

lemma valid_createBackup:
  "valid_world w \<Longrightarrow> createBackup env op trig w = (r, w1) \<Longrightarrow> valid_world w1"
  using createBackup_store createBackup_now valid_world_later by blast

lemma list_all_delete_one: "list_all P es \<Longrightarrow> list_all P (delete_one i es)"
  by (induction es) auto

lemma list_all_update_one:
  "list_all P es \<Longrightarrow> (\<And>e. P e \<Longrightarrow> P (f e)) \<Longrightarrow> list_all P (update_one i f es)"
  by (induction es) auto

lemma valid_create: "valid_world w \<Longrightarrow> valid_world (snd (create_handler env b w))"
proof -
  assume v: "valid_world w"
  have step: "valid_world w2"
    if nv: "new_Vault env n c cat ts w = (doc, w1)" and sv: "save env doc w1 = (r, w2)"
    for n c cat ts doc w1 r w2
  proof -
    note f = new_Vault_result [OF nv]
    from save_result [OF sv] show ?thesis
    proof
      assume "store w2 = store w1 \<and> now w1 \<le> now w2 \<and> (\<exists>x. r = Inl x)"
      with f v show ?thesis
        by (auto simp: valid_world_def intro: list_all_valid_later)
    next
      assume a: "store w2 = store w1 @ [doc\<lparr>updatedAt := now w2\<rparr>] \<and> now w2 = now w1 + tick_c env
          \<and> name doc \<noteq> [] \<and> content doc \<noteq> [] \<and> r = Inr (doc\<lparr>updatedAt := now w2\<rparr>)
          \<and> \<not> write_fault env \<and> \<not> list_ex (\<lambda>e. entry_id e = entry_id doc) (store w1)"
      from v f a have "list_all (valid_entry (now w2)) (store w)"
        by (auto simp: valid_world_def intro: list_all_valid_later)
      moreover from f a have "valid_entry (now w2) (doc\<lparr>updatedAt := now w2\<rparr>)"
        by (simp add: valid_entry_def)
      ultimately show ?thesis using a f by (simp add: valid_world_def)
    qed
  qed
  show ?thesis
    by (auto simp: create_handler_def v split: option.splits prod.splits sum.splits
          dest: step valid_createBackup)
qed

lemma valid_update: "valid_world w \<Longrightarrow> valid_world (snd (update_handler env idp b w))"
proof -
  assume v: "valid_world w"
  have keep: "valid_entry (now w + tick_a env) (apply_update b (now w + tick_a env) e)"
    if "valid_entry (now w + tick_a env) e" and "update_valid b" for e
    using that
    by (auto simp: valid_entry_def apply_update_def update_valid_def split: option.splits)
  have later: "list_all (valid_entry (now w + tick_a env)) (store w)"
    using v by (auto simp: valid_world_def list_all_iff intro: valid_entry_mono)
  have step: "valid_world w2"
    if "findByIdAndUpdate env idp b (now w + tick_a env) (w\<lparr>now := now w + tick_a env\<rparr>) = (r, w2)"
    for r w2
    using that later keep
    by (auto simp: findByIdAndUpdate_def valid_world_def
          split: id_param.splits if_splits option.splits intro!: list_all_update_one)
  show ?thesis
    by (auto simp: update_handler_def Date_now_def split: prod.splits sum.splits option.splits
          dest: step valid_createBackup)
qed

lemma valid_findByIdAndDelete:
  "valid_world w1 \<Longrightarrow> findByIdAndDelete env idp w1 = (r, w2) \<Longrightarrow> valid_world w2"
  by (auto simp: findByIdAndDelete_def valid_world_def
        split: id_param.splits if_splits intro: list_all_delete_one)

lemma valid_delete: "valid_world w \<Longrightarrow> valid_world (snd (delete_handler env idp w))"
proof -
  assume v: "valid_world w"
  have cb: "valid_world w1" if "createBackup env op trig w = (r, w1)" for op trig r w1
    using v that by (rule valid_createBackup)
  have step: "valid_world w2"
    if "createBackup env op trig w = (r1, w1)" and "findByIdAndDelete env idp w1 = (r, w2)"
    for op trig r1 w1 r w2
    using cb [OF that(1)] that(2) by (rule valid_findByIdAndDelete)
  show ?thesis
    by (auto simp: delete_handler_def v split: prod.splits sum.splits option.splits
          intro: cb step)
qed

lemma valid_handle: "valid_world w \<Longrightarrow> valid_world (snd (handle env r w))"
  by (cases r) (simp_all add: handle_def valid_create valid_update valid_delete)

lemma valid_run: "valid_world w \<Longrightarrow> valid_world (run rs w)"
  by (induction rs arbitrary: w) (auto simp: valid_handle)

lemma valid_started: "valid_world (snd (startServer m l initial))"
  by (simp add: startServer_def ensureBackupsDir_def initial_def valid_world_def)

section \<open>Deleting an entry\<close>

text \<open>
  Claim C1. For a DELETE request whose id resolves to an existing entry \<open>e\<close>, the handler
  calls createBackup with operation DELETE on the world as it is before the delete. When
  the backup is written, the snapshot in the new file holds the store with \<open>e\<close> still in
  it, and the store delete runs on the world that the backup left behind. When the backup
  fails, the handler answers 500 and the store still holds \<open>e\<close>.
\<close>

theorem delete_backs_up_before_deleting:
  assumes found: "findById (read_fault env) idp w = Inr (Some e)"
  shows "case createBackup env DELETE (Some (Some (name e), entry_id e)) w of
           (Inl x, w1) \<Rightarrow>
             delete_handler env idp w
               = ((500, ErrorBody ''Failed to delete vault entry'' (Some x)), w1)
             \<and> store w1 = store w \<and> e \<in> set (store w1) \<and> backups_dir w1 = backups_dir w
         | (Inr fn, w1) \<Rightarrow>
             (\<exists>d snap. backups_dir w1 = Some d \<and> d fn = Some snap \<and> fst fn = DELETE
                \<and> operation snap = DELETE \<and> data snap = store w \<and> e \<in> set (data snap))
             \<and> snd (delete_handler env idp w) = snd (findByIdAndDelete env idp w1)
             \<and> (if write_fault env
                 then delete_handler env idp w
                        = ((500, ErrorBody ''Failed to delete vault entry'' (Some StoreError)), w1)
                 else delete_handler env idp w
                        = ((200, EntryBody (Some ''Vault entry deleted successfully'') e),
                           w1\<lparr>store := delete_one (entry_id e) (store w)\<rparr>))"
proof (cases "createBackup env DELETE (Some (Some (name e), entry_id e)) w")
  case (Pair r w1)
  note st = createBackup_store [OF Pair]
  from findById_Some [OF found] have idp: "idp = ObjectId (entry_id e)" and mem: "e \<in> set (store w)"
    by simp_all
  show ?thesis
  proof (cases r)
    case (Inl x)
    with Pair found st mem createBackup_failed [of env DELETE _ w x w1] show ?thesis
      by (simp add: delete_handler_def)
  next
    case (Inr fn)
    from Pair Inr have "createBackup env DELETE (Some (Some (name e), entry_id e)) w = (Inr fn, w1)"
      by simp
    from createBackup_written [OF this] mem
    have "\<exists>d snap. backups_dir w1 = Some d \<and> d fn = Some snap \<and> fst fn = DELETE
                \<and> operation snap = DELETE \<and> data snap = store w \<and> e \<in> set (data snap)"
      by fastforce
    with Pair Inr found st idp show ?thesis
      by (simp add: delete_handler_def findByIdAndDelete_def)
  qed
qed

theorem delete_backs_up_before_deleting_witness:
  "findById (read_fault calm) (ObjectId 0) sample_world = Inr (Some sample_entry)
   \<and> fst (delete_handler calm (ObjectId 0) sample_world)
       = (200, EntryBody (Some ''Vault entry deleted successfully'') sample_entry)
   \<and> store (snd (delete_handler calm (ObjectId 0) sample_world)) = []
   \<and> fst (delete_handler (calm\<lparr>backup_write_fault := True\<rparr>) (ObjectId 0) sample_world)
       = (500, ErrorBody ''Failed to delete vault entry'' (Some FilesystemError))
   \<and> store (snd (delete_handler (calm\<lparr>backup_write_fault := True\<rparr>) (ObjectId 0) sample_world))
       = [sample_entry]"
proof -
  have h: "findById (read_fault calm) (ObjectId 0) sample_world = Inr (Some sample_entry)"
    by (simp add: findById_def calm_def sample_world_def sample_entry_def)
  have h': "findById (read_fault (calm\<lparr>backup_write_fault := True\<rparr>)) (ObjectId 0) sample_world
              = Inr (Some sample_entry)"
    by (simp add: findById_def calm_def sample_world_def sample_entry_def)
  have ok: "createBackup calm DELETE (Some (Some (name sample_entry), entry_id sample_entry))
              sample_world
            = (Inr (DELETE, 10),
               sample_world\<lparr>backups_dir :=
                 Some [(DELETE, 10) \<mapsto>
                   \<lparr>timestamp = 10, operation = DELETE,
                    trigger = Some (Some ''A'', 0), data = [sample_entry],
                    count_entries = 1\<rparr>]\<rparr>)"
    by (simp add: createBackup_def Date_now_def find_all_def writeFile_def calm_def
          sample_world_def sample_entry_def)
  have bad: "createBackup (calm\<lparr>backup_write_fault := True\<rparr>) DELETE
               (Some (Some (name sample_entry), entry_id sample_entry)) sample_world
             = (Inl FilesystemError, sample_world)"
    by (simp add: createBackup_def Date_now_def find_all_def writeFile_def calm_def
          sample_world_def sample_entry_def)
  from delete_backs_up_before_deleting [OF h] delete_backs_up_before_deleting [OF h'] h ok bad
  show ?thesis
    by (simp add: calm_def sample_world_def sample_entry_def)
qed

text \<open>
  Claim C9. For a DELETE request whose id resolves to no entry (the lookup returns null),
  the response is 404 and the world is unchanged: no backup file is created and the store
  is as it was.
\<close>

theorem delete_missing_is_404:
  assumes "findById (read_fault env) idp w = Inr None"
  shows "delete_handler env idp w = ((404, ErrorBody ''Vault entry not found'' None), w)"
  using assms by (simp add: delete_handler_def)

theorem delete_missing_is_404_witness:
  "findById (read_fault calm) (ObjectId 7) sample_world = Inr None
   \<and> delete_handler calm (ObjectId 7) sample_world
       = ((404, ErrorBody ''Vault entry not found'' None), sample_world)"
proof -
  have h: "findById (read_fault calm) (ObjectId 7) sample_world = Inr None"
    by (simp add: findById_def calm_def sample_world_def sample_entry_def)
  from delete_missing_is_404 [OF h] h show ?thesis by simp
qed

section \<open>Searching\<close>

text \<open>
  Claim C2, as amended. For a query \<open>q\<close> that is not empty and has no syntax character of
  regular expressions, when the store answers, the search returns exactly the entries in
  which \<open>q\<close> occurs, without regard to case, in the name, the content, the category or
  one of the tags, in the order of the store. In particular \<open>foo\<close> finds an entry whose
  tags hold \<open>Foo\<close>. An empty query is answered with 400, as an absent one is.
\<close>

theorem search_plain_query:
  assumes "\<forall>c\<in>set q. \<not> syntax_character c" and "\<not> read_fault env"
  shows \<open>let results =
           filter (\<lambda>e. sublist (map to_lower q) (map to_lower (name e))
                      \<or> sublist (map to_lower q) (map to_lower (content e))
                      \<or> sublist (map to_lower q) (map to_lower (category e))
                      \<or> (\<exists>t\<in>set (tags e). sublist (map to_lower q) (map to_lower t)))
             (store w)
         in search_handler engine env (Some q) w
              = (if q = []
                 then (400, ErrorBody ''Search query parameter "q" is required'' None)
                 else (200, SearchBody q (length results) results))\<close>
  using assms
  by (simp add: search_handler_def RegExp_i_plain find_all_def Let_def list_ex_iff)

theorem search_plain_query_witness:
  "search_handler (\<lambda>p. Inl RegExpSyntaxError) calm (Some ''foo'') sample_world
     = (200, SearchBody ''foo'' 1 [sample_entry])
   \<and> tags sample_entry = [''Foo'']"
proof -
  have h: "\<forall>c\<in>set ''foo''. \<not> syntax_character c" "\<not> read_fault calm"
    by (simp_all add: syntax_character_def calm_def)
  have t: "sublist (map to_lower ''foo'') (map to_lower ''Foo'')"
    by (simp add: occurs_i_sublist [symmetric] to_lower_def)
  have "filter (\<lambda>e. sublist (map to_lower ''foo'') (map to_lower (name e))
                      \<or> sublist (map to_lower ''foo'') (map to_lower (content e))
                      \<or> sublist (map to_lower ''foo'') (map to_lower (category e))
                      \<or> (\<exists>t\<in>set (tags e). sublist (map to_lower ''foo'') (map to_lower t)))
             (store sample_world) = [sample_entry]"
    using t by (simp add: sample_world_def sample_entry_def)
  with search_plain_query [OF h, where engine = "\<lambda>p. Inl RegExpSyntaxError" and w = sample_world]
  show ?thesis
    by (simp add: Let_def sample_entry_def)
qed

text \<open>
  Claim C2 as stated fails. The query \<open>a|b\<close> is compiled as a pattern with two
  alternatives, so it returns an entry in which the text \<open>a|b\<close> occurs nowhere; and the
  empty query, which occurs in every text, is answered with 400.
\<close>

theorem search_plain_query_counterexample:
  \<open>search_handler (\<lambda>p. Inl RegExpSyntaxError) calm (Some ''a|b'') sample_world
     = (200, SearchBody ''a|b'' 1 [sample_entry])
   \<and> \<not> sublist (map to_lower ''a|b'') (map to_lower (name sample_entry))
   \<and> \<not> sublist (map to_lower ''a|b'') (map to_lower (content sample_entry))
   \<and> \<not> sublist (map to_lower ''a|b'') (map to_lower (category sample_entry))
   \<and> \<not> list_ex (\<lambda>t. sublist (map to_lower ''a|b'') (map to_lower t)) (tags sample_entry)
   \<and> search_handler (\<lambda>p. Inl RegExpSyntaxError) calm (Some []) sample_world
     = (400, ErrorBody ''Search query parameter "q" is required'' None)\<close>
proof -
  have absent:
      "\<not> sublist (map to_lower ''a|b'') (map to_lower (name sample_entry))"
      "\<not> sublist (map to_lower ''a|b'') (map to_lower (content sample_entry))"
      "\<not> sublist (map to_lower ''a|b'') (map to_lower (category sample_entry))"
      "\<not> list_ex (\<lambda>t. sublist (map to_lower ''a|b'') (map to_lower t)) (tags sample_entry)"
    unfolding occurs_i_sublist [symmetric]
    by (simp_all add: sample_entry_def to_lower_def)
  have found: "search_handler (\<lambda>p. Inl RegExpSyntaxError) calm (Some ''a|b'') sample_world
     = (200, SearchBody ''a|b'' 1 [sample_entry])"
    by (simp add: search_handler_def RegExp_i_def syntax_character_def find_all_def calm_def
          sample_world_def sample_entry_def to_lower_def)
  have empty: \<open>search_handler (\<lambda>p. Inl RegExpSyntaxError) calm (Some []) sample_world
     = (400, ErrorBody ''Search query parameter "q" is required'' None)\<close>
    by (simp add: search_handler_def)
  from found absent empty show ?thesis
    by blast
qed

text \<open>
  Claim C8. A search request in which \<open>q\<close> is absent is answered with 400 and an error
  body: no entry is matched, whatever the store holds.
\<close>

theorem search_without_query_is_400:
  \<open>search_handler engine env None w
     = (400, ErrorBody ''Search query parameter "q" is required'' None)\<close>
  by (simp add: search_handler_def)

theorem search_without_query_is_400_witness:
  \<open>search_handler (\<lambda>p. Inl RegExpSyntaxError) calm None sample_world
     = (400, ErrorBody ''Search query parameter "q" is required'' None)\<close>
  using search_without_query_is_400 [of "\<lambda>p. Inl RegExpSyntaxError" calm sample_world]
  by simp

section \<open>Starting the server\<close>

text \<open>
  Claim C3 says that the process exits when the backups directory cannot be created at
  startup. The code does not: \<open>ensureBackupsDir\<close> swallows the error of mkdir, so the
  catch of \<open>startServer\<close> is not reached and the server listens, in the world as it was.
  The other half of the claim holds: nothing creates the directory later, and without it
  every backup fails (\<open>createBackup_without_dir\<close>).
\<close>

theorem startServer_survives_mkdir_failure:
  "startServer True False w = (Listening, w)"
  by (simp add: startServer_def ensureBackupsDir_def)

section \<open>The timestamps of a created entry\<close>

text \<open>
  Claim C4, as amended. The entry returned with 201 has \<open>createdAt\<close> equal to the clock
  when the document is constructed and \<open>updatedAt\<close> equal to the clock when the pre-save
  hook runs. So \<open>createdAt\<close> is not after \<open>updatedAt\<close>, and the two are equal exactly when
  the clock does not advance in between.
\<close>

theorem created_timestamps:
  assumes "create_handler env b w = ((201, EntryBody msg e), w')"
  shows "createdAt e = now w + tick_a env
       \<and> updatedAt e = now w + tick_a env + tick_b env + tick_c env
       \<and> createdAt e \<le> updatedAt e
       \<and> (createdAt e = updatedAt e \<longleftrightarrow> tick_b env + tick_c env = 0)"
  using assms
  by (auto simp: create_handler_def new_Vault_def save_def Date_now_def
        split: if_splits option.splits prod.splits sum.splits)

theorem created_timestamps_witness:
  "create_handler (calm\<lparr>tick_c := 1\<rparr>) sample_body sample_world
     = ((201, EntryBody (Some ''Vault entry created successfully'')
              \<lparr>entry_id = 1, name = ''A'', content = ''x'', category = ''general'', tags = [],
               createdAt = 10, updatedAt = 11\<rparr>),
        snd (create_handler (calm\<lparr>tick_c := 1\<rparr>) sample_body sample_world))
   \<and> (10::nat) = now sample_world + tick_a (calm\<lparr>tick_c := 1\<rparr>)
   \<and> (11::nat) = now sample_world + tick_a (calm\<lparr>tick_c := 1\<rparr>) + tick_b (calm\<lparr>tick_c := 1\<rparr>)
                   + tick_c (calm\<lparr>tick_c := 1\<rparr>)"
proof -
  have h: "create_handler (calm\<lparr>tick_c := 1\<rparr>) sample_body sample_world
     = ((201, EntryBody (Some ''Vault entry created successfully'')
              \<lparr>entry_id = 1, name = ''A'', content = ''x'', category = ''general'', tags = [],
               createdAt = 10, updatedAt = 11\<rparr>),
        snd (create_handler (calm\<lparr>tick_c := 1\<rparr>) sample_body sample_world))"
    by (simp add: create_handler_def new_Vault_def save_def createBackup_def
        Date_now_def find_all_def writeFile_def calm_def sample_body_def sample_world_def
        sample_entry_def truthy_def trim_def is_space_def)
  from created_timestamps [OF h] h show ?thesis by simp
qed

text \<open>
  Claim C4 as stated fails: when one millisecond passes before the pre-save hook reads the
  clock, the entry returned with 201 has \<open>createdAt = 10\<close> and \<open>updatedAt = 11\<close>.
\<close>

theorem created_timestamps_counterexample:
  "fst (create_handler (calm\<lparr>tick_c := 1\<rparr>) sample_body sample_world)
     = (201, EntryBody (Some ''Vault entry created successfully'')
              \<lparr>entry_id = 1, name = ''A'', content = ''x'', category = ''general'', tags = [],
               createdAt = 10, updatedAt = 11\<rparr>)
   \<and> createdAt \<lparr>entry_id = 1, name = ''A'', content = ''x'', category = ''general'', tags = [],
                 createdAt = 10, updatedAt = 11\<rparr>
       \<noteq> updatedAt \<lparr>entry_id = 1, name = ''A'', content = ''x'', category = ''general'',
                     tags = [], createdAt = 10, updatedAt = 11\<rparr>"
  by (simp add: create_handler_def new_Vault_def save_def createBackup_def
        Date_now_def find_all_def writeFile_def calm_def sample_body_def sample_world_def
        sample_entry_def truthy_def trim_def is_space_def)

section \<open>Entries that the API can reach\<close>

text \<open>
  Claim C5. After the server has started and any sequence of create, update and delete
  requests has run, in any environment, every entry of the store has a name and a content
  that are not empty, and its \<open>updatedAt\<close> is not before its \<open>createdAt\<close>.
\<close>

theorem reachable_entries_valid:
  "\<forall>e \<in> set (store (run rs (snd (startServer m l initial)))).
     name e \<noteq> [] \<and> content e \<noteq> [] \<and> createdAt e \<le> updatedAt e"
  using valid_run [OF valid_started, of rs m l]
  by (simp add: valid_world_def list_all_iff valid_entry_def)

theorem reachable_entries_valid_witness:
  "store (run [(calm\<lparr>tick_c := 1\<rparr>, Create sample_body)] (snd (startServer False False initial)))
     = [\<lparr>entry_id = 0, name = ''A'', content = ''x'', category = ''general'', tags = [],
         createdAt = 0, updatedAt = 1\<rparr>]
   \<and> name (hd (store (run [(calm\<lparr>tick_c := 1\<rparr>, Create sample_body)]
                        (snd (startServer False False initial))))) \<noteq> []
   \<and> content (hd (store (run [(calm\<lparr>tick_c := 1\<rparr>, Create sample_body)]
                           (snd (startServer False False initial))))) \<noteq> []
   \<and> createdAt (hd (store (run [(calm\<lparr>tick_c := 1\<rparr>, Create sample_body)]
                             (snd (startServer False False initial)))))
       \<le> updatedAt (hd (store (run [(calm\<lparr>tick_c := 1\<rparr>, Create sample_body)]
                                 (snd (startServer False False initial)))))"
proof -
  let ?w = "run [(calm\<lparr>tick_c := 1\<rparr>, Create sample_body)] (snd (startServer False False initial))"
  have st: "store ?w
     = [\<lparr>entry_id = 0, name = ''A'', content = ''x'', category = ''general'', tags = [],
         createdAt = 0, updatedAt = 1\<rparr>]"
    by (simp add: handle_def create_handler_def new_Vault_def save_def createBackup_def
          Date_now_def find_all_def writeFile_def startServer_def ensureBackupsDir_def
          initial_def calm_def sample_body_def truthy_def trim_def is_space_def)
  then have "hd (store ?w) \<in> set (store ?w)"
    by simp
  with reachable_entries_valid
         [of "[(calm\<lparr>tick_c := 1\<rparr>, Create sample_body)]" False False]
  have "name (hd (store ?w)) \<noteq> [] \<and> content (hd (store ?w)) \<noteq> []
        \<and> createdAt (hd (store ?w)) \<le> updatedAt (hd (store ?w))"
    by blast
  with st show ?thesis by blast
qed

section \<open>Updating an entry\<close>

text \<open>
  Claim C6, as amended. After an update request on an existing id, whatever the body, the
  entry under that id has the same id and the same \<open>createdAt\<close>, and its \<open>updatedAt\<close> is
  not earlier than before. When the body passes the validators and the store accepts the
  update, \<open>updatedAt\<close> is the clock reading of the request; otherwise the request is
  answered with 500 and the entry is unchanged. The entry is assumed not to be stamped in
  the future.
\<close>

theorem update_effect:
  assumes found: "findById False idp w = Inr (Some e)" and past: "updatedAt e \<le> now w"
  shows "\<exists>e'. findById False idp (snd (update_handler env idp b w)) = Inr (Some e')
          \<and> entry_id e' = entry_id e \<and> createdAt e' = createdAt e
          \<and> updatedAt e \<le> updatedAt e'
          \<and> (if update_valid b \<and> \<not> write_fault env
              then e' = apply_update b (now w + tick_a env) e
                   \<and> updatedAt e' = now w + tick_a env
              else e' = e \<and> fst (fst (update_handler env idp b w)) = 500)"
proof -
  from found obtain i where idp: "idp = ObjectId i"
      and fe: "find (\<lambda>x. entry_id x = i) (store w) = Some e"
    by (auto simp: findById_def split: id_param.splits)
  let ?t = "now w + tick_a env"
  let ?w1 = "w\<lparr>now := ?t\<rparr>"
  obtain r w2 where up: "findByIdAndUpdate env idp b ?t ?w1 = (r, w2)"
    by (cases "findByIdAndUpdate env idp b ?t ?w1")
  have fin: "store (snd (update_handler env idp b w)) = store w2"
    using up
    by (auto simp: update_handler_def Date_now_def
          split: sum.splits option.splits prod.splits dest: createBackup_store)
  show ?thesis
  proof (cases "update_valid b \<and> \<not> write_fault env")
    case True
    with up idp fe have "store w2 = update_one i (apply_update b ?t) (store w)"
      by (auto simp: findByIdAndUpdate_def)
    with fin fe have "find (\<lambda>x. entry_id x = i) (store (snd (update_handler env idp b w)))
                        = Some (apply_update b ?t e)"
      by (simp add: find_update_one apply_update_keeps)
    with True idp past show ?thesis
      by (simp add: findById_def apply_update_keeps)
  next
    case False
    with up idp have rej: "store w2 = store w" "\<exists>x. r = Inl x"
      by (auto simp: findByIdAndUpdate_def split: if_splits)
    with up have "fst (fst (update_handler env idp b w)) = 500"
      by (auto simp: update_handler_def Date_now_def)
    with rej fin fe False idp show ?thesis
      by (auto simp: findById_def)
  qed
qed

theorem update_effect_witness:
  "findById False (ObjectId 0) sample_world = Inr (Some sample_entry)
   \<and> updatedAt sample_entry \<le> now sample_world
   \<and> findById False (ObjectId 0)
        (snd (update_handler (calm\<lparr>tick_a := 1\<rparr>) (ObjectId 0)
                (sample_body\<lparr>body_content := Some ''y''\<rparr>) sample_world))
     = Inr (Some (sample_entry\<lparr>content := ''y'', updatedAt := 11\<rparr>))"
proof -
  have h: "findById False (ObjectId 0) sample_world = Inr (Some sample_entry)"
      "updatedAt sample_entry \<le> now sample_world"
    by (simp_all add: findById_def sample_world_def sample_entry_def)
  have v: "update_valid (sample_body\<lparr>body_content := Some ''y''\<rparr>)
           \<and> \<not> write_fault (calm\<lparr>tick_a := 1\<rparr>)"
    by (simp add: update_valid_def sample_body_def calm_def trim_def is_space_def)
  have a: "apply_update (sample_body\<lparr>body_content := Some ''y''\<rparr>)
             (now sample_world + tick_a (calm\<lparr>tick_a := 1\<rparr>)) sample_entry
           = sample_entry\<lparr>content := ''y'', updatedAt := 11\<rparr>"
    by (simp add: apply_update_def sample_body_def sample_world_def sample_entry_def calm_def
          trim_def is_space_def)
  from update_effect [OF h, of "calm\<lparr>tick_a := 1\<rparr>" "sample_body\<lparr>body_content := Some ''y''\<rparr>"]
    v a h
  show ?thesis by auto
qed

text \<open>
  Claim C6 as stated fails: an update whose body sets an empty name is rejected by the
  validators with 500, and the entry keeps its \<open>updatedAt\<close>.
\<close>

theorem update_effect_counterexample:
  "findById False (ObjectId 0) sample_world = Inr (Some sample_entry)
   \<and> update_handler (calm\<lparr>tick_a := 1\<rparr>) (ObjectId 0)
        (sample_body\<lparr>body_name := Some []\<rparr>) sample_world
     = ((500, ErrorBody ''Failed to update vault entry'' (Some ValidationError)),
        sample_world\<lparr>now := 11\<rparr>)
   \<and> findById False (ObjectId 0) (sample_world\<lparr>now := 11\<rparr>) = Inr (Some sample_entry)
   \<and> \<not> updatedAt sample_entry < updatedAt sample_entry"
  by (simp add: update_handler_def findByIdAndUpdate_def update_valid_def Date_now_def
        findById_def sample_world_def sample_entry_def sample_body_def calm_def trim_def)

section \<open>Sorting the entries\<close>

text \<open>
  Claim C7, as amended. The sort request is answered with 400 exactly when \<open>by\<close> is
  present, not empty and neither \<open>name\<close> nor \<open>date\<close>, or \<open>order\<close> is present, not empty
  and neither \<open>asc\<close> nor \<open>desc\<close>. Otherwise, when the store answers, the response is 200
  with all the entries, sorted by the chosen field and direction; \<open>date\<close> stands for
  \<open>createdAt\<close>, and a parameter that is absent or empty counts as \<open>createdAt\<close>,
  descending.
\<close>

theorem sort_request:
  \<open>(fst (sort_handler env by order w) = 400
      \<longleftrightarrow> (truthy by \<and> by \<noteq> Some ''name'' \<and> by \<noteq> Some ''date'')
          \<or> (truthy order \<and> order \<noteq> Some ''asc'' \<and> order \<noteq> Some ''desc''))
   \<and> (\<not> (truthy by \<and> by \<noteq> Some ''name'' \<and> by \<noteq> Some ''date'')
      \<and> \<not> (truthy order \<and> order \<noteq> Some ''asc'' \<and> order \<noteq> Some ''desc'')
      \<and> \<not> read_fault env
      \<longrightarrow> (\<exists>es. sort_handler env by order w
                  = (200, SortBody (if by = Some ''name'' then ''name'' else ''createdAt'')
                            (if order = Some ''asc'' then ''ascending'' else ''descending'')
                            (length (store w)) es)
             \<and> mset es = mset (store w)
             \<and> sorted_wrt
                 (\<lambda>a b. if by = Some ''name''
                        then (if order = Some ''asc'' then name a \<le> name b
                              else name b \<le> name a)
                        else (if order = Some ''asc'' then createdAt a \<le> createdAt b
                              else createdAt b \<le> createdAt a)) es))\<close>
proof -
  let ?f = "if by = Some ''name'' then ''name'' else ''createdAt''"
  let ?d = "if order = Some ''asc'' then 1 else (- 1 :: int)"
  have cmp: "entry_le ?f ?d
     = (\<lambda>a b. if by = Some ''name''
                        then (if order = Some ''asc'' then name a \<le> name b
                              else name b \<le> name a)
                        else (if order = Some ''asc'' then createdAt a \<le> createdAt b
                              else createdAt b \<le> createdAt a))"
    by (auto simp: entry_le_def fun_eq_iff)
  have status: "fst (sort_handler env by order w) = 400
      \<longleftrightarrow> (truthy by \<and> by \<noteq> Some ''name'' \<and> by \<noteq> Some ''date'')
          \<or> (truthy order \<and> order \<noteq> Some ''asc'' \<and> order \<noteq> Some ''desc'')"
    by (auto simp: sort_handler_def find_all_def Let_def)
  have good: "sort_handler env by order w
                  = (200, SortBody ?f (if order = Some ''asc'' then ''ascending'' else ''descending'')
                            (length (store w)) (sort_docs ?f ?d (store w)))"
    if "\<not> (truthy by \<and> by \<noteq> Some ''name'' \<and> by \<noteq> Some ''date'')"
      "\<not> (truthy order \<and> order \<noteq> Some ''asc'' \<and> order \<noteq> Some ''desc'')"
      "\<not> read_fault env"
    using that
    by (auto simp: sort_handler_def find_all_def Let_def length_sort_docs truthy_def)
  show ?thesis
    using status good mset_sort_docs [of ?f ?d "store w"] sorted_sort_docs [of ?f ?d "store w"]
    unfolding cmp by blast
qed

theorem sort_request_witness:
  "fst (sort_handler calm (Some ''bogus'') None sample_pair) = 400
   \<and> fst (sort_handler calm (Some ''name'') (Some ''asc'') sample_pair) = 200
   \<and> snd (sort_handler calm (Some ''name'') (Some ''asc'') sample_pair)
       = SortBody ''name'' ''ascending'' 2
           [\<lparr>entry_id = 1, name = ''a'', content = ''y'', category = ''work'',
             tags = [], createdAt = 2, updatedAt = 2\<rparr>,
            \<lparr>entry_id = 0, name = ''b'', content = ''x'', category = ''general'',
             tags = [], createdAt = 1, updatedAt = 1\<rparr>]"
proof -
  have "truthy (Some ''bogus'')"
    by (simp add: truthy_def)
  with sort_request [of calm "Some ''bogus''" None sample_pair]
  have bad: "fst (sort_handler calm (Some ''bogus'') None sample_pair) = 400"
    by simp
  have "\<not> read_fault calm"
    by (simp add: calm_def)
  with sort_request [of calm "Some ''name''" "Some ''asc''" sample_pair]
  have "fst (sort_handler calm (Some ''name'') (Some ''asc'') sample_pair) = 200"
    by auto
  moreover have "snd (sort_handler calm (Some ''name'') (Some ''asc'') sample_pair)
       = SortBody ''name'' ''ascending'' 2
           [\<lparr>entry_id = 1, name = ''a'', content = ''y'', category = ''work'',
             tags = [], createdAt = 2, updatedAt = 2\<rparr>,
            \<lparr>entry_id = 0, name = ''b'', content = ''x'', category = ''general'',
             tags = [], createdAt = 1, updatedAt = 1\<rparr>]"
    by (simp add: sort_handler_def truthy_def find_all_def calm_def sample_pair_def
          sort_docs_def sort_by_def entry_le_def)
  ultimately show ?thesis using bad by simp
qed

text \<open>
  Claim C7 as stated fails: \<open>by\<close> present and empty is not in the set of fields, and
  the request is answered with 200 and the default order.
\<close>

theorem sort_request_counterexample:
  "sort_handler calm (Some []) None sample_world
     = (200, SortBody ''createdAt'' ''descending'' 1 [sample_entry])
   \<and> Some [] \<noteq> (None :: string option)
   \<and> Some [] \<noteq> Some ''name'' \<and> Some [] \<noteq> Some ''date''"
  by (simp add: sort_handler_def truthy_def find_all_def calm_def sample_world_def
        sort_docs_def sort_by_def)

section \<open>Creating an entry when the backup fails\<close>

text \<open>
  Claim C10. When a create request is valid and the store accepts the new entry, and the
  backup then fails, the handler answers 500, yet the entry is in the store: a later
  get-by-id returns it and a later list-all contains it.
\<close>

theorem create_kept_when_backup_fails:
  assumes fields: "body_name b = Some n" "body_content b = Some c" "trim n \<noteq> []" "c \<noteq> []"
    and saved: "\<not> write_fault env" "\<not> list_ex (\<lambda>e. entry_id e = next_oid w) (store w)"
    and failing: "backup_find_fault env \<or> backup_write_fault env \<or> backups_dir w = None"
  shows "\<exists>e x w'.
           create_handler env b w
             = ((500, ErrorBody ''Failed to create vault entry'' (Some x)), w')
         \<and> store w' = store w @ [e] \<and> entry_id e = next_oid w \<and> name e = trim n
         \<and> content e = c
         \<and> (\<forall>env'. \<not> read_fault env'
               \<longrightarrow> get_handler env' (ObjectId (entry_id e)) w' = (200, EntryBody None e))
         \<and> (\<forall>env'. \<not> read_fault env'
               \<longrightarrow> (\<exists>es. list_handler env' w' = (200, ListBody (length es) es) \<and> e \<in> set es))"
proof -
  from fields have tr: "truthy (body_name b)" "truthy (body_content b)"
    by (auto simp: truthy_def trim_def)
  obtain doc w1 where nv:
    "new_Vault env n c
       (if truthy (body_category b)
        then (case body_category b of Some cat \<Rightarrow> cat | None \<Rightarrow> ''general'')
        else ''general'')
       (case body_tags b of Some ts \<Rightarrow> ts | None \<Rightarrow> []) w = (doc, w1)"
    by (cases "new_Vault env n c
       (if truthy (body_category b)
        then (case body_category b of Some cat \<Rightarrow> cat | None \<Rightarrow> ''general'')
        else ''general'')
       (case body_tags b of Some ts \<Rightarrow> ts | None \<Rightarrow> []) w")
  note f = new_Vault_result [OF nv]
  obtain r w2 where sv: "save env doc w1 = (r, w2)"
    by (cases "save env doc w1")
  have dirs: "backups_dir w2 = backups_dir w"
    using nv sv by (auto simp: new_Vault_def save_def Date_now_def split: if_splits)
  from sv f fields saved
  have ok: "store w2 = store w @ [doc\<lparr>updatedAt := now w2\<rparr>]"
        "r = Inr (doc\<lparr>updatedAt := now w2\<rparr>)"
    by (auto simp: save_def Date_now_def split: if_splits)
  let ?e = "doc\<lparr>updatedAt := now w2\<rparr>"
  obtain rb w3 where cb: "createBackup env CREATE (Some (Some n, entry_id ?e)) w2 = (rb, w3)"
    by (cases "createBackup env CREATE (Some (Some n, entry_id ?e)) w2")
  from createBackup_fails_iff [of env CREATE "Some (Some n, entry_id ?e)" w2] failing dirs cb
  obtain x where x: "rb = Inl x"
    by auto
  note st = createBackup_store [OF cb]
  have resp: "create_handler env b w
                = ((500, ErrorBody ''Failed to create vault entry'' (Some x)), w3)"
    using fields tr nv sv ok cb x by (simp add: create_handler_def)
  have store3: "store w3 = store w @ [?e]"
    using st ok by simp
  have lookup: "find (\<lambda>d. entry_id d = entry_id ?e) (store w3) = Some ?e"
    using store3 saved f by (simp add: find_append_last)
  have get: "get_handler env' (ObjectId (entry_id ?e)) w3 = (200, EntryBody None ?e)"
    if "\<not> read_fault env'" for env'
    using that lookup by (simp add: get_handler_def findById_def)
  have list: "\<exists>es. list_handler env' w3 = (200, ListBody (length es) es) \<and> ?e \<in> set es"
    if "\<not> read_fault env'" for env'
    using that store3 by (simp add: list_handler_def find_all_def Let_def set_sort_docs)
  from resp store3 f get list show ?thesis
    by (intro exI [of _ ?e] exI [of _ x] exI [of _ w3]) simp
qed

theorem create_kept_when_backup_fails_witness:
  "fst (create_handler (calm\<lparr>backup_write_fault := True\<rparr>) sample_body sample_world)
     = (500, ErrorBody ''Failed to create vault entry'' (Some FilesystemError))
   \<and> store (snd (create_handler (calm\<lparr>backup_write_fault := True\<rparr>) sample_body sample_world))
     = [sample_entry,
        \<lparr>entry_id = 1, name = ''A'', content = ''x'', category = ''general'', tags = [],
         createdAt = 10, updatedAt = 10\<rparr>]
   \<and> get_handler calm (ObjectId 1)
        (snd (create_handler (calm\<lparr>backup_write_fault := True\<rparr>) sample_body sample_world))
     = (200, EntryBody None
          \<lparr>entry_id = 1, name = ''A'', content = ''x'', category = ''general'', tags = [],
           createdAt = 10, updatedAt = 10\<rparr>)"
proof -
  have h: "body_name sample_body = Some ''A''" "body_content sample_body = Some ''x''"
      "trim ''A'' \<noteq> []" "''x'' \<noteq> []"
      "\<not> write_fault (calm\<lparr>backup_write_fault := True\<rparr>)"
      "\<not> list_ex (\<lambda>e. entry_id e = next_oid sample_world) (store sample_world)"
      "backup_find_fault (calm\<lparr>backup_write_fault := True\<rparr>)
       \<or> backup_write_fault (calm\<lparr>backup_write_fault := True\<rparr>)
       \<or> backups_dir sample_world = None"
    by (simp_all add: sample_body_def sample_world_def sample_entry_def calm_def trim_def
          is_space_def)
  from create_kept_when_backup_fails [OF h]
  obtain e x w' where r:
      "create_handler (calm\<lparr>backup_write_fault := True\<rparr>) sample_body sample_world
         = ((500, ErrorBody ''Failed to create vault entry'' (Some x)), w')"
      "\<not> read_fault calm
         \<longrightarrow> get_handler calm (ObjectId (entry_id e)) w' = (200, EntryBody None e)"
      "store w' = store sample_world @ [e]"
    by blast
  have v: "create_handler (calm\<lparr>backup_write_fault := True\<rparr>) sample_body sample_world
        = ((500, ErrorBody ''Failed to create vault entry'' (Some FilesystemError)),
           sample_world\<lparr>store := [sample_entry,
              \<lparr>entry_id = 1, name = ''A'', content = ''x'', category = ''general'', tags = [],
               createdAt = 10, updatedAt = 10\<rparr>], next_oid := 2\<rparr>)"
    by (simp add: create_handler_def new_Vault_def save_def createBackup_def
        Date_now_def find_all_def writeFile_def calm_def sample_body_def sample_world_def
        sample_entry_def truthy_def trim_def is_space_def)
  from r(1) v have w': "w' = sample_world\<lparr>store := [sample_entry,
              \<lparr>entry_id = 1, name = ''A'', content = ''x'', category = ''general'', tags = [],
               createdAt = 10, updatedAt = 10\<rparr>], next_oid := 2\<rparr>"
    by simp
  with r(3) have e: "e = \<lparr>entry_id = 1, name = ''A'', content = ''x'', category = ''general'',
                          tags = [], createdAt = 10, updatedAt = 10\<rparr>"
    by (simp add: sample_world_def)
  have "\<not> read_fault calm"
    by (simp add: calm_def)
  with r(2) e have "get_handler calm (ObjectId 1) w'
     = (200, EntryBody None
          \<lparr>entry_id = 1, name = ''A'', content = ''x'', category = ''general'', tags = [],
           createdAt = 10, updatedAt = 10\<rparr>)"
    by simp
  with v w' show ?thesis
    by simp
qed

end
